theory Spec2Isabelle
  imports Main "HOL-Library.Word" "HOL-Library.Signed_Division"
begin

section \<open>JavaScript values used by the logger\<close>

text \<open>
  A JavaScript string is a sequence of UTF-16 code units; \<open>length\<close>, \<open>slice\<close> and
  \<open>padStart\<close> count code units. String literals of the source that are plain ASCII are
  written with \<open>str\<close>.
\<close>

type_synonym code_unit = "16 word"
type_synonym js_string = "code_unit list"

definition str :: "string \<Rightarrow> js_string" where
  "str s = map of_char s"

text \<open>\<open>Maybe<T>\<close> of the source: \<open>T | null | undefined\<close>.\<close>

datatype 'a maybe = Undefined | Null | Defined 'a

text \<open>
  \<open>BigInt.prototype.toString()\<close>: the decimal digits, most significant first, after a
  minus sign for a negative number.
\<close>

definition decimal_digit :: "nat \<Rightarrow> code_unit" where
  "decimal_digit d = of_nat (48 + d)"

function decimal_digits :: "nat \<Rightarrow> js_string" where
  "decimal_digits n =
     (if n < 10 then [decimal_digit n]
      else decimal_digits (n div 10) @ [decimal_digit (n mod 10)])"
  by pat_completeness auto
termination
  by (relation "measure id") auto

declare decimal_digits.simps [simp del]

definition bigint_toString :: "int \<Rightarrow> js_string" where
  "bigint_toString k =
     (if k < 0 then str ''-'' @ decimal_digits (nat (- k)) else decimal_digits (nat k))"

text \<open>
  \<open>s.padStart(targetLength, c)\<close> for a filler \<open>c\<close> of one code unit, and
  \<open>s.replace(/0+$/, "")\<close>, which removes the zeros at the end of \<open>s\<close>.
\<close>

definition padStart :: "js_string \<Rightarrow> int \<Rightarrow> code_unit \<Rightarrow> js_string" where
  "padStart s targetLength c = replicate (nat targetLength - length s) c @ s"

definition replace_trailing_zeros :: "js_string \<Rightarrow> js_string" where
  "replace_trailing_zeros s = rev (dropWhile (\<lambda>c. c = 48) (rev s))"

section \<open>The coin formatter\<close>

text \<open>
  \<open>pow10\<close> multiplies by ten in a loop that counts \<open>i\<close> from \<open>0\<close> while \<open>i < n\<close>.
\<close>

function pow10_loop :: "int \<Rightarrow> int \<Rightarrow> int \<Rightarrow> int" where
  "pow10_loop n i v = (if i < n then pow10_loop n (i + 1) (v * 10) else v)"
  by pat_completeness auto
termination
  by (relation "measure (\<lambda>(n, i, v). nat (n - i))") auto

declare pow10_loop.simps [simp del]

definition pow10 :: "int \<Rightarrow> int" where
  "pow10 n = pow10_loop n 0 1"

definition decimalCount :: int where
  "decimalCount = 9"

definition decimal :: int where
  "decimal = pow10 decimalCount"

text \<open>
  \<open>formatCoinsPure\<close>: bigint \<open>/\<close> and \<open>%\<close> truncate towards zero (\<open>sdiv\<close>, \<open>smod\<close>);
  the two variables \<open>whole\<close> and \<open>frac\<close> that the source updates in place are
  threaded through as a pair.
\<close>

definition formatCoinsPure :: "int \<Rightarrow> int \<Rightarrow> js_string" where
  "formatCoinsPure val precision =
     (let whole = val sdiv decimal;
          frac = val smod decimal;
          precisionDecimal = pow10 (decimalCount - precision);
          (frac, whole) =
            (if frac smod precisionDecimal > 0 then
               (let frac = frac + precisionDecimal
                in if frac \<ge> decimal then (frac - decimal, whole + 1) else (frac, whole))
             else (frac, whole));
          frac = frac sdiv precisionDecimal
      in bigint_toString whole @
         (if frac \<noteq> 0
          then str ''.'' @ replace_trailing_zeros (padStart (bigint_toString frac) precision 48)
          else []))"

text \<open>The sentinel of \<open>formatCoins\<close> is the one code unit U+221E.\<close>

definition infinity_sign :: js_string where
  "infinity_sign = [0x221E]"

definition formatCoins :: "int maybe \<Rightarrow> int \<Rightarrow> js_string" where
  "formatCoins val precision =
     (case val of
        Undefined \<Rightarrow> infinity_sign
      | Null \<Rightarrow> infinity_sign
      | Defined v \<Rightarrow> formatCoinsPure v precision)"

text \<open>The default value of the parameter \<open>precision\<close>.\<close>

definition default_precision :: int where
  "default_precision = 6"

subsection \<open>The formatter as the specification words it\<close>

text \<open>
  The algorithm of the specification, written from its sentences: floor division and
  remainder by \<open>10^9\<close>, the grid step \<open>unit = 10^(9 - p)\<close>, the round-up with carry, and the
  rendering of the numerator padded on the left to \<open>p\<close> digits, trailing zeros stripped.
\<close>

definition zero_pad_left :: "nat \<Rightarrow> js_string \<Rightarrow> js_string" where
  "zero_pad_left p ds = replicate (p - length ds) 48 @ ds"

fun strip_trailing_zeros :: "js_string \<Rightarrow> js_string" where
  "strip_trailing_zeros [] = []"
| "strip_trailing_zeros (c # cs) =
     (if strip_trailing_zeros cs = [] \<and> c = 48 then [] else c # strip_trailing_zeros cs)"

definition spec_format :: "int \<Rightarrow> int \<Rightarrow> js_string" where
  "spec_format a p =
     (let whole = a div 10 ^ 9;
          frac = a mod 10 ^ 9;
          unit = 10 ^ nat (9 - p);
          rounds = (frac mod unit > 0);
          carries = (rounds \<and> frac + unit \<ge> 10 ^ 9);
          frac' = (if carries then frac + unit - 10 ^ 9 else if rounds then frac + unit else frac);
          whole' = (if carries then whole + 1 else whole);
          numerator = frac' div unit
      in decimal_digits (nat whole') @
         (if numerator \<noteq> 0
          then str ''.'' @ strip_trailing_zeros (zero_pad_left (nat p) (decimal_digits (nat numerator)))
          else []))"

subsection \<open>The value a decimal string denotes\<close>

text \<open>
  \<open>decimal_subunits s\<close> reads \<open>s\<close> as a decimal numeral: digits, then optionally a point
  and at least one and at most nine more digits. The result is the denoted number
  multiplied by \<open>10^9\<close>, that is, in subunits; \<open>None\<close> for any other string.
\<close>

definition digit_value :: "code_unit \<Rightarrow> nat option" where
  "digit_value c = (if 48 \<le> c \<and> c \<le> 57 then Some (unat c - 48) else None)"

fun digits_value :: "nat \<Rightarrow> js_string \<Rightarrow> nat option" where
  "digits_value acc [] = Some acc"
| "digits_value acc (c # cs) =
     (case digit_value c of
        None \<Rightarrow> None
      | Some d \<Rightarrow> digits_value (10 * acc + d) cs)"

definition decimal_subunits :: "js_string \<Rightarrow> int option" where
  "decimal_subunits s =
     (let w = takeWhile (\<lambda>c. c \<noteq> 46) s;
          r = dropWhile (\<lambda>c. c \<noteq> 46) s
      in if w = [] then None
         else case digits_value 0 w of
           None \<Rightarrow> None
         | Some W \<Rightarrow>
             (case r of
                [] \<Rightarrow> Some (int W * 10 ^ 9)
              | point # f \<Rightarrow>
                  if f = [] \<or> length f > 9 then None
                  else case digits_value 0 f of
                    None \<Rightarrow> None
                  | Some F \<Rightarrow> Some (int W * 10 ^ 9 + int F * 10 ^ (9 - length f))))"

section \<open>The logger\<close>

subsection \<open>Transactions of the ledger library\<close>

text \<open>
  The types of \<open>@ton/core\<close> that the logger reads, with the fields it reads. An
  \<open>Address\<close> is read only through \<open>toString()\<close>, so it carries that string. The unions
  that TypeScript discriminates by a \<open>type\<close> tag are datatypes; \<open>info_type\<close>,
  \<open>description_type\<close> and \<open>computePhase_type\<close> give the tag. A field that only one
  variant has (\<open>coins\<close>, \<open>computePhase\<close>, \<open>actionPhase\<close>, \<open>exitCode\<close>) is the selector of that
  variant, and the source reads it only after testing the tag.
\<close>

datatype Address = Address (toString: js_string)

datatype ExternalAddress = ExternalAddress (ext_value: int) (ext_bits: int)

datatype address_like = AnAddress Address | AnExternalAddress ExternalAddress

datatype CommonMessageInfo =
    Internal (internal_src: Address) (internal_dest: Address) (coins: int)
  | ExternalIn (external_in_src: "ExternalAddress maybe") (external_in_dest: Address)
  | ExternalOut (external_out_src: Address) (external_out_dest: "ExternalAddress maybe")

fun info_type :: "CommonMessageInfo \<Rightarrow> js_string" where
  "info_type (Internal s d c) = str ''internal''"
| "info_type (ExternalIn s d) = str ''external-in''"
| "info_type (ExternalOut s d) = str ''external-out''"

fun map_maybe :: "('a \<Rightarrow> 'b) \<Rightarrow> 'a maybe \<Rightarrow> 'b maybe" where
  "map_maybe f (Defined x) = Defined (f x)"
| "map_maybe f Null = Null"
| "map_maybe f Undefined = Undefined"

fun info_src :: "CommonMessageInfo \<Rightarrow> address_like maybe" where
  "info_src (Internal s d c) = Defined (AnAddress s)"
| "info_src (ExternalIn s d) = map_maybe AnExternalAddress s"
| "info_src (ExternalOut s d) = Defined (AnAddress s)"

fun info_dest :: "CommonMessageInfo \<Rightarrow> address_like maybe" where
  "info_dest (Internal s d c) = Defined (AnAddress d)"
| "info_dest (ExternalIn s d) = Defined (AnAddress d)"
| "info_dest (ExternalOut s d) = map_maybe AnExternalAddress d"

text \<open>
  A \<open>Cell\<close> is read through \<open>beginParse()\<close>, \<open>remainingBits\<close> and \<open>preloadUint\<close> only: it is
  its data bits, and a \<open>Slice\<close> is the bits not yet read. \<open>preloadUint n\<close> reads \<open>n\<close>
  bits, most significant first.
\<close>

type_synonym Cell = "bool list"
type_synonym Slice = "bool list"

definition beginParse :: "Cell \<Rightarrow> Slice" where
  "beginParse c = c"

definition remainingBits :: "Slice \<Rightarrow> int" where
  "remainingBits s = int (length s)"

definition preloadUint :: "nat \<Rightarrow> Slice \<Rightarrow> int" where
  "preloadUint n s = foldl (\<lambda>acc b. 2 * acc + of_bool b) 0 (take n s)"

record Message =
  info :: CommonMessageInfo
  body :: "Cell maybe"

datatype TransactionComputePhase = Skipped | Vm (exitCode: int)

fun computePhase_type :: "TransactionComputePhase \<Rightarrow> js_string" where
  "computePhase_type Skipped = str ''skipped''"
| "computePhase_type (Vm e) = str ''vm''"

record TransactionActionPhase =
  totalActions :: int

datatype TransactionDescription =
    Generic (computePhase: TransactionComputePhase) (actionPhase: "TransactionActionPhase maybe")
  | Storage
  | TickTock
  | SplitPrepare
  | SplitInstall
  | MergePrepare
  | MergeInstall

fun description_type :: "TransactionDescription \<Rightarrow> js_string" where
  "description_type (Generic c a) = str ''generic''"
| "description_type Storage = str ''storage''"
| "description_type TickTock = str ''tick-tock''"
| "description_type SplitPrepare = str ''split-prepare''"
| "description_type SplitInstall = str ''split-install''"
| "description_type MergePrepare = str ''merge-prepare''"
| "description_type MergeInstall = str ''merge-install''"

text \<open>
  \<open>outMessages\<close> is the array that \<open>tx.outMessages.values()\<close> returns; \<open>totalFees\<close> is
  \<open>tx.totalFees.coins\<close>.
\<close>

record Transaction =
  description :: TransactionDescription
  inMessage :: "Message maybe"
  outMessages :: "Message list"
  totalFees :: int

subsection \<open>JavaScript helpers\<close>

text \<open>
  \<open>x?.f\<close> is \<open>undefined\<close> when \<open>x\<close> is \<open>undefined\<close> or \<open>null\<close>, and \<open>x.f\<close> otherwise.
\<close>

fun optional_chain :: "'a maybe \<Rightarrow> ('a \<Rightarrow> 'b maybe) \<Rightarrow> 'b maybe" where
  "optional_chain (Defined x) f = f x"
| "optional_chain Null f = Undefined"
| "optional_chain Undefined f = Undefined"

text \<open>The values that a field of the displayed row holds.\<close>

datatype js_value =
    JSUndefined
  | JSNull
  | JSString js_string
  | JSNumber int
  | JSArray "js_value list"

fun js_of_maybe_string :: "js_string maybe \<Rightarrow> js_value" where
  "js_of_maybe_string (Defined s) = JSString s"
| "js_of_maybe_string Null = JSNull"
| "js_of_maybe_string Undefined = JSUndefined"

text \<open>
  \<open>Number.prototype.toString(16)\<close> of an integer: lower-case hexadecimal digits, after a
  minus sign for a negative number.
\<close>

definition hex_digit :: "nat \<Rightarrow> code_unit" where
  "hex_digit d = (if d < 10 then of_nat (48 + d) else of_nat (87 + d))"

function hex_digits :: "nat \<Rightarrow> js_string" where
  "hex_digits n =
     (if n < 16 then [hex_digit n] else hex_digits (n div 16) @ [hex_digit (n mod 16)])"
  by pat_completeness auto
termination
  by (relation "measure id") auto

declare hex_digits.simps [simp del]

definition number_toString16 :: "int \<Rightarrow> js_string" where
  "number_toString16 k =
     (if k < 0 then str ''-'' @ hex_digits (nat (- k)) else hex_digits (nat k))"

subsection \<open>Labels\<close>

text \<open>
  The logger holds the ledger handle, which these operations do not read, and the
  \<open>Map\<close> from address strings to labels.
\<close>

record 'b Logger =
  blockchain :: 'b
  contractLabels :: "js_string \<rightharpoonup> js_string"

datatype js_error = Error js_string

record SandboxContract =
  address :: Address

datatype contract_arg =
    OfSandboxContract SandboxContract
  | OfAddress Address
  | OfString js_string

fun getAddressString :: "contract_arg \<Rightarrow> js_string" where
  "getAddressString (OfSandboxContract c) = toString (address c)"
| "getAddressString (OfString s) = s"
| "getAddressString (OfAddress a) = toString a"

text \<open>
  \<open>addContract\<close> returns the outcome, \<open>Inl\<close> the thrown error, together with the logger
  as the call leaves it.
\<close>

definition addContract ::
  "'b Logger \<Rightarrow> contract_arg \<Rightarrow> js_string \<Rightarrow> (js_error + unit) \<times> 'b Logger" where
  "addContract lg contract label =
     (let address = getAddressString contract
      in if contractLabels lg address \<noteq> None
         then (Inl (Error (str ''The '' @ [39] @ address @ [39] @
                 str '' contract already has a '' @ [39] @ label @ [39] @ str '' label!'')), lg)
         else (Inr (), lg\<lparr>contractLabels := (contractLabels lg)(address \<mapsto> label)\<rparr>))"

definition shortenString :: "js_string \<Rightarrow> js_string" where
  "shortenString s =
     (if length s \<le> 8 then s
      else take 4 s @ str ''...'' @ drop (length s - 4) s)"

text \<open>
  \<open>a || b\<close> is \<open>b\<close> when \<open>a\<close> is \<open>undefined\<close>, the result of \<open>Map.get\<close> for a missing key,
  or the empty string.
\<close>

definition getContractLabel :: "'b Logger \<Rightarrow> Address \<Rightarrow> js_string" where
  "getContractLabel lg a =
     (case contractLabels lg (toString a) of
        Some label \<Rightarrow> if label \<noteq> [] then label else shortenString (toString a)
      | None \<Rightarrow> shortenString (toString a))"

subsection \<open>Formatting a transaction\<close>

record DisplayRow =
  Source :: js_value
  Destination :: js_value
  Type :: js_value
  Opcode :: js_value
  Incoming_Value :: js_value
  Outgoing_Value :: js_value
  Total_Fees :: js_value
  Outgoing_Actions_Count :: js_value
  Exit_Code :: js_value

definition formatTransaction :: "'b Logger \<Rightarrow> Transaction \<Rightarrow> DisplayRow option" where
  "formatTransaction lg tx =
     (if description_type (description tx) \<noteq> str ''generic'' then None
      else
        let inType = optional_chain (inMessage tx) (\<lambda>m. Defined (info_type (info m)));
            body =
              (if inType = Defined (str ''internal'')
               then optional_chain (inMessage tx)
                      (\<lambda>m. optional_chain (body m) (\<lambda>c. Defined (beginParse c)))
               else Undefined);
            op =
              (case body of
                 Defined b \<Rightarrow>
                   if remainingBits b \<ge> 32 then JSNumber (preloadUint 32 b)
                   else JSString (str ''0gR33n0gr'')
               | _ \<Rightarrow> JSString (str ''0gR33n0gr''));
            source = optional_chain (inMessage tx) (\<lambda>m. info_src (info m));
            sourceLabel =
              (case source of
                 Defined (AnAddress a) \<Rightarrow> getContractLabel lg a
               | _ \<Rightarrow> str ''Shrek'');
            destination = optional_chain (inMessage tx) (\<lambda>m. info_dest (info m));
            destinationLabel =
              (case destination of
                 Defined (AnAddress a) \<Rightarrow> getContractLabel lg a
               | _ \<Rightarrow> str ''Donkey'')
        in Some \<lparr>
             Source = JSString sourceLabel,
             Destination = JSString destinationLabel,
             Type = js_of_maybe_string inType,
             Opcode =
               (case op of
                  JSNumber n \<Rightarrow> JSString (str ''0x'' @ number_toString16 n)
                | _ \<Rightarrow> op),
             Incoming_Value =
               JSString (formatCoins
                 (if inType = Defined (str ''internal'')
                  then optional_chain (inMessage tx) (\<lambda>m. Defined (coins (info m)))
                  else Undefined)
                 default_precision),
             Outgoing_Value =
               (if length (outMessages tx) = 0 then JSString (str ''No coins!'')
                else JSArray
                  (map (\<lambda>msg. JSString (formatCoins (Defined (coins (info msg))) default_precision))
                     (filter (\<lambda>msg. info_type (info msg) = str ''internal'') (outMessages tx)))),
             Total_Fees = JSString (formatCoins (Defined (totalFees tx)) default_precision),
             Outgoing_Actions_Count =
               (case optional_chain (actionPhase (description tx)) (\<lambda>a. Defined (totalActions a)) of
                  Defined n \<Rightarrow> JSNumber n
                | _ \<Rightarrow> JSString (str ''No actions here?'')),
             Exit_Code =
               (if computePhase_type (computePhase (description tx)) = str ''vm''
                then JSNumber (exitCode (computePhase (description tx)))
                else JSString (str ''Ogres have layers?''))
           \<rparr>)"

text \<open>
  \<open>logTransactions\<close> writes to the console: the \<open>info\<close> line when it is given and not
  empty, then the table of the rows that are not \<open>undefined\<close>, in the order of the
  transactions.
\<close>

datatype console_call = ConsoleInfo js_string | ConsoleTable "DisplayRow list"

definition logTransactions ::
  "'b Logger \<Rightarrow> Transaction list \<Rightarrow> js_string maybe \<Rightarrow> console_call list" where
  "logTransactions lg transactions info_line =
     (let formattedTransactions = map (formatTransaction lg) transactions
      in (case info_line of Defined s \<Rightarrow> if s \<noteq> [] then [ConsoleInfo s] else [] | _ \<Rightarrow> []) @
         [ConsoleTable (map the (filter (\<lambda>tx. tx \<noteq> None) formattedTransactions))])"

subsection \<open>The outgoing amounts as the specification words them\<close>

text \<open>
  The formatted amounts, at the default precision, of exactly the messages of
  internal kind, in the order of the messages.
\<close>

fun internal_amounts :: "Message list \<Rightarrow> js_value list" where
  "internal_amounts [] = []"
| "internal_amounts (m # ms) =
     (case info m of
        Internal s d c \<Rightarrow> JSString (formatCoins (Defined c) 6) # internal_amounts ms
      | ExternalIn s d \<Rightarrow> internal_amounts ms
      | ExternalOut s d \<Rightarrow> internal_amounts ms)"

subsection \<open>Example inputs\<close>

text \<open>
  A logger without labels, an address, and transactions: generic ones with no message
  at all, with one outbound message of external kind, with an outbound message of
  external kind before one of internal kind carrying 1.5 units, and one of storage
  kind.
\<close>

definition example_logger :: "unit Logger" where
  "example_logger = \<lparr>blockchain = (), contractLabels = Map.empty\<rparr>"

definition example_address :: Address where
  "example_address = Address (str ''EQBGhqLAZseEqRXz4ByFPTGV7SVMlI4hrbs-Sps_Xzx01x8G'')"

definition example_external_out :: Message where
  "example_external_out = \<lparr>info = ExternalOut example_address Undefined, body = Undefined\<rparr>"

definition example_internal_out :: Message where
  "example_internal_out =
     \<lparr>info = Internal example_address example_address 1500000000, body = Undefined\<rparr>"

definition example_tx_bare :: Transaction where
  "example_tx_bare =
     \<lparr>description = Generic Skipped Undefined, inMessage = Undefined, outMessages = [],
      totalFees = 0\<rparr>"

definition example_tx_external :: Transaction where
  "example_tx_external = example_tx_bare\<lparr>outMessages := [example_external_out]\<rparr>"

definition example_tx_mixed :: Transaction where
  "example_tx_mixed =
     example_tx_bare\<lparr>outMessages := [example_external_out, example_internal_out]\<rparr>"

definition example_tx_storage :: Transaction where
  "example_tx_storage = example_tx_bare\<lparr>description := Storage\<rparr>"

section \<open>Evaluation of the formatter\<close>

lemma pow10_loop_eq: "i \<le> n \<Longrightarrow> pow10_loop n i v = v * 10 ^ nat (n - i)"
proof (induction n i v rule: pow10_loop.induct)
  case (1 n i v)
  show ?case
  proof (cases "i < n")
    case True
    then have "nat (n - i) = Suc (nat (n - (i + 1)))"
      by simp
    with True 1 show ?thesis
      by (subst pow10_loop.simps) simp
  next
    case False
    with 1 show ?thesis
      by (subst pow10_loop.simps) simp
  qed
qed

lemma pow10_eq: "0 \<le> n \<Longrightarrow> pow10 n = 10 ^ nat n"
  by (simp add: pow10_def pow10_loop_eq)

lemma decimal_eq: "decimal = 1000000000"
  by (simp add: decimal_def decimalCount_def pow10_eq)

text \<open>
  Claim C4: \<open>format(999999999, 6)\<close> is the string \<open>"1"\<close>: the residue \<open>999\<close> below the
  six-digit grid is positive, so the fraction is raised by one grid step, reaches
  \<open>10^9\<close> and carries into the whole part.
\<close>

theorem formatCoins_carry_into_whole:
  "formatCoinsPure 999999999 6 = str ''1'' \<and>
   formatCoins (Defined 999999999) 6 = str ''1''"
  by (simp add: formatCoins_def formatCoinsPure_def decimal_eq decimalCount_def pow10_eq
      signed_divide_int_def signed_modulo_int_def bigint_toString_def
      decimal_digits.simps decimal_digit_def str_def)

text \<open>
  Claim C5: for every precision, \<open>formatCoins\<close> of an absent amount, \<open>undefined\<close> or
  \<open>null\<close>, is the same sentinel string, the single code unit U+221E; the branch takes
  no part of the arithmetic of \<open>formatCoinsPure\<close>.
\<close>

theorem formatCoins_absent:
  "formatCoins Undefined p = [0x221E] \<and> formatCoins Null p = [0x221E]"
  by (simp add: formatCoins_def infinity_sign_def)

section \<open>The formatter follows the algorithm of the specification\<close>

lemma sdiv_nonneg: "0 \<le> (a::int) \<Longrightarrow> 0 < b \<Longrightarrow> a sdiv b = a div b"
  by (cases "a = 0") (simp_all add: signed_divide_int_def)

lemma smod_nonneg: "0 \<le> (a::int) \<Longrightarrow> 0 < b \<Longrightarrow> a smod b = a mod b"
  by (cases "a = 0") (simp_all add: signed_modulo_int_def)

lemma strip_trailing_zeros_Nil_iff:
  "strip_trailing_zeros s = [] \<longleftrightarrow> (\<forall>c \<in> set s. c = 48)"
  by (induction s) auto

lemma replace_trailing_zeros_eq: "replace_trailing_zeros s = strip_trailing_zeros s"
proof (induction s)
  case Nil
  show ?case by (simp add: replace_trailing_zeros_def)
next
  case (Cons c cs)
  have "replace_trailing_zeros (c # cs) =
      rev (if \<forall>x \<in> set cs. x = 48 then dropWhile (\<lambda>c. c = 48) [c]
           else dropWhile (\<lambda>c. c = 48) (rev cs) @ [c])"
    by (simp add: replace_trailing_zeros_def dropWhile_append)
  also have "\<dots> = strip_trailing_zeros (c # cs)"
    using Cons by (auto simp: replace_trailing_zeros_def strip_trailing_zeros_Nil_iff rev_swap)
  finally show ?case .
qed

lemma padStart_zero: "padStart s p 48 = zero_pad_left (nat p) s"
  by (simp add: padStart_def zero_pad_left_def)

lemma bigint_toString_nonneg: "0 \<le> k \<Longrightarrow> bigint_toString k = decimal_digits (nat k)"
  by (simp add: bigint_toString_def)

lemma formatCoinsPure_refines:
  assumes "0 \<le> a" "0 \<le> p" "p \<le> 9"
  shows "formatCoinsPure a p = spec_format a p"
proof -
  define u :: int where "u = 10 ^ nat (9 - p)"
  have u: "0 < u" by (simp add: u_def)
  have pd: "pow10 (decimalCount - p) = u"
    using assms by (simp add: decimalCount_def pow10_eq u_def)
  define w where "w = a div 1000000000"
  define f where "f = a mod 1000000000"
  have f: "0 \<le> f" "f < 1000000000" by (simp_all add: f_def)
  have w: "0 \<le> w" using assms by (simp add: w_def pos_imp_zdiv_nonneg_iff)
  show ?thesis
    using assms u f w
    by (simp add: formatCoinsPure_def spec_format_def decimal_eq pd Let_def
        sdiv_nonneg smod_nonneg u_def [symmetric] w_def [symmetric] f_def [symmetric]
        bigint_toString_nonneg padStart_zero replace_trailing_zeros_eq
        pos_imp_zdiv_nonneg_iff)
qed

text \<open>
  Claim C1: for a non-negative amount \<open>a\<close> and a precision \<open>p\<close> from \<open>0\<close> to \<open>9\<close>,
  \<open>formatCoinsPure a p\<close>, and so \<open>formatCoins\<close> of the present amount, is the string
  that the algorithm of the specification produces: split by \<open>10^9\<close>, round the
  fraction up by one \<open>unit = 10^(9 - p)\<close> when it has a residue below the unit, carry
  into the whole part at \<open>10^9\<close>, divide by the unit, and print the whole part and,
  only for a numerator other than zero, a point and the numerator padded to \<open>p\<close>
  digits without its trailing zeros. The amount \<open>123456789\<close> at precision \<open>6\<close> gives
  \<open>"0.123457"\<close>.
\<close>

theorem formatCoinsPure_follows_spec:
  "(0 \<le> a \<and> 0 \<le> p \<and> p \<le> 9 \<longrightarrow>
      formatCoinsPure a p = spec_format a p \<and>
      formatCoins (Defined a) p = spec_format a p) \<and>
   formatCoinsPure 123456789 6 = str ''0.123457''"
proof -
  have "formatCoinsPure 123456789 6 = str ''0.123457''"
    by (simp add: formatCoinsPure_def decimal_eq decimalCount_def pow10_eq
        signed_divide_int_def signed_modulo_int_def bigint_toString_def
        padStart_def replace_trailing_zeros_def
        decimal_digits.simps decimal_digit_def str_def)
  then show ?thesis
    by (simp add: formatCoins_def formatCoinsPure_refines)
qed

theorem formatCoinsPure_follows_spec_witness:
  "formatCoinsPure 1999999001 6 = spec_format 1999999001 6 \<and>
   spec_format 1999999001 6 = str ''2'' \<and>
   formatCoinsPure 1500000001 3 = spec_format 1500000001 3 \<and>
   spec_format 1500000001 3 = str ''1.501''"
proof -
  have "spec_format 1999999001 6 = str ''2''"
    by (simp add: spec_format_def zero_pad_left_def decimal_digits.simps
        decimal_digit_def str_def)
  moreover have "spec_format 1500000001 3 = str ''1.501''"
    by (simp add: spec_format_def zero_pad_left_def decimal_digits.simps
        decimal_digit_def str_def)
  ultimately show ?thesis
    using formatCoinsPure_follows_spec [of 1999999001 6]
      formatCoinsPure_follows_spec [of 1500000001 3]
    by simp
qed

section \<open>The value of the formatted string\<close>

lemma unat_decimal_digit: "d < 10 \<Longrightarrow> unat (decimal_digit d) = 48 + d"
  by (simp add: decimal_digit_def unat_of_nat del: of_nat_add of_nat_numeral)

lemma digit_value_digit: "d < 10 \<Longrightarrow> digit_value (decimal_digit d) = Some d"
  by (simp add: digit_value_def word_le_nat_alt unat_decimal_digit)

lemma digit_not_point: "d < 10 \<Longrightarrow> decimal_digit d \<noteq> 46"
proof
  assume "d < 10" and "decimal_digit d = 46"
  then have "unat (decimal_digit d) = unat (46 :: code_unit)"
    by simp
  with \<open>d < 10\<close> show False
    by (simp add: unat_decimal_digit)
qed

lemma digits_value_append:
  "digits_value acc (xs @ ys) =
     (case digits_value acc xs of None \<Rightarrow> None | Some v \<Rightarrow> digits_value v ys)"
  by (induction xs arbitrary: acc) (auto split: option.splits)

lemma digits_value_decimal_digits:
  "digits_value acc (decimal_digits n) = Some (acc * 10 ^ length (decimal_digits n) + n)"
proof (induction n arbitrary: acc rule: decimal_digits.induct)
  case (1 n)
  show ?case
  proof (cases "n < 10")
    case True
    then show ?thesis
      by (subst (1 2) decimal_digits.simps) (simp add: digit_value_digit)
  next
    case False
    let ?k = "length (decimal_digits (n div 10))"
    have len: "length (decimal_digits n) = Suc ?k"
      using False by (subst decimal_digits.simps) simp
    have "digits_value acc (decimal_digits n) =
        digits_value acc (decimal_digits (n div 10) @ [decimal_digit (n mod 10)])"
      using False by (subst decimal_digits.simps) simp
    also have "\<dots> = Some (10 * (acc * 10 ^ ?k + n div 10) + n mod 10)"
      using False by (simp add: digits_value_append 1 digit_value_digit)
    also have "10 * (acc * 10 ^ ?k + n div 10) + n mod 10 =
        acc * 10 ^ length (decimal_digits n) + n"
      by (simp add: len algebra_simps)
    finally show ?thesis .
  qed
qed

lemma point_notin_decimal_digits: "46 \<notin> set (decimal_digits n)"
proof (induction n rule: decimal_digits.induct)
  case (1 n)
  show ?case
  proof (cases "n < 10")
    case True
    then show ?thesis
      using digit_not_point [of n] by (subst decimal_digits.simps) auto
  next
    case False
    then show ?thesis
      using 1 digit_not_point [of "n mod 10"] by (subst decimal_digits.simps) auto
  qed
qed

lemma decimal_digits_not_Nil: "decimal_digits n \<noteq> []"
  by (subst decimal_digits.simps) simp

lemma length_decimal_digits: "n < 10 ^ k \<Longrightarrow> 0 < k \<Longrightarrow> length (decimal_digits n) \<le> k"
proof (induction n arbitrary: k rule: decimal_digits.induct)
  case (1 n)
  show ?case
  proof (cases "n < 10")
    case True
    with 1(3) show ?thesis
      by (subst decimal_digits.simps) simp
  next
    case False
    with 1(2) have "1 < k"
      by (cases "k = 1") (use 1(3) in auto)
    then obtain j where k: "k = Suc j" and j: "0 < j"
      by (cases k) auto
    from 1(2) k have "n div 10 < 10 ^ j"
      by (simp add: less_mult_imp_div_less)
    with 1(1) False j have "length (decimal_digits (n div 10)) \<le> j"
      by simp
    with False k show ?thesis
      by (subst decimal_digits.simps) simp
  qed
qed

lemma digit_value_zero: "digit_value 48 = Some 0"
  by (simp add: digit_value_def)

lemma digits_value_zeros: "digits_value acc (replicate m 48) = Some (acc * 10 ^ m)"
  by (induction m arbitrary: acc) (simp_all add: digit_value_zero)

lemma digits_value_zero_pad_left:
  "digits_value 0 (zero_pad_left p (decimal_digits n)) = Some n"
  by (simp add: zero_pad_left_def digits_value_append digits_value_zeros
      digits_value_decimal_digits)

lemma length_zero_pad_left: "length ds \<le> p \<Longrightarrow> length (zero_pad_left p ds) = p"
  by (simp add: zero_pad_left_def)

lemma strip_trailing_zeros_decomp:
  "s = strip_trailing_zeros s @ replicate (length s - length (strip_trailing_zeros s)) 48"
proof (induction s)
  case Nil
  show ?case by simp
next
  case (Cons c cs)
  show ?case
  proof (cases "strip_trailing_zeros cs = [] \<and> c = 48")
    case True
    then have "cs = replicate (length cs) 48"
      by (simp add: strip_trailing_zeros_Nil_iff replicate_length_same)
    with True show ?thesis
      by simp
  next
    case False
    have "length (strip_trailing_zeros cs) \<le> length cs"
      by (metis Cons.IH length_append le_add1)
    with False Cons show ?thesis
      by (auto simp: Suc_diff_le)
  qed
qed

lemma length_strip_trailing_zeros: "length (strip_trailing_zeros s) \<le> length s"
  by (metis strip_trailing_zeros_decomp length_append le_add1)

lemma digits_value_strip_trailing_zeros:
  assumes "digits_value 0 s = Some v"
  shows "\<exists>v'. digits_value 0 (strip_trailing_zeros s) = Some v' \<and>
    v = v' * 10 ^ (length s - length (strip_trailing_zeros s))"
proof -
  have "digits_value 0 (strip_trailing_zeros s @
      replicate (length s - length (strip_trailing_zeros s)) 48) = Some v"
    using assms strip_trailing_zeros_decomp [of s] by simp
  then show ?thesis
    by (auto simp: digits_value_append digits_value_zeros split: option.splits)
qed

lemma digits_value_all_zeros: "\<forall>c \<in> set s. c = 48 \<Longrightarrow> digits_value 0 s = Some 0"
  by (induction s) (simp_all add: digit_value_zero)

text \<open>The digits after the point, for a numerator \<open>n\<close> with \<open>0 < n < 10^p\<close>.\<close>

lemma fraction_digits:
  assumes "0 < n" "n < 10 ^ p"
  defines "f \<equiv> strip_trailing_zeros (zero_pad_left p (decimal_digits n))"
  shows "f \<noteq> [] \<and> length f \<le> p \<and>
    (\<exists>F. digits_value 0 f = Some F \<and> F * 10 ^ (p - length f) = n)"
proof -
  from assms(1,2) have p: "0 < p"
    by (cases "p = 0") auto
  let ?s = "zero_pad_left p (decimal_digits n)"
  have len: "length ?s = p"
    using assms(2) p by (simp add: length_zero_pad_left length_decimal_digits)
  have val: "digits_value 0 ?s = Some n"
    by (rule digits_value_zero_pad_left)
  have "f \<noteq> []"
  proof
    assume "f = []"
    then have "digits_value 0 ?s = Some 0"
      by (simp add: f_def strip_trailing_zeros_Nil_iff digits_value_all_zeros)
    with val assms(1) show False by simp
  qed
  moreover have "length f \<le> p"
    using length_strip_trailing_zeros [of ?s] len by (simp add: f_def)
  moreover have "\<exists>F. digits_value 0 f = Some F \<and> F * 10 ^ (p - length f) = n"
    using digits_value_strip_trailing_zeros [OF val] len by (auto simp: f_def)
  ultimately show ?thesis by simp
qed

lemma takeWhile_point: "46 \<notin> set w \<Longrightarrow> takeWhile (\<lambda>c. c \<noteq> 46) (w @ 46 # f) = w"
  by (induction w) auto

lemma dropWhile_point: "46 \<notin> set w \<Longrightarrow> dropWhile (\<lambda>c. c \<noteq> 46) (w @ 46 # f) = 46 # f"
  by (induction w) auto

lemma takeWhile_no_point: "46 \<notin> set w \<Longrightarrow> takeWhile (\<lambda>c. c \<noteq> 46) w = w"
  by (induction w) auto

lemma dropWhile_no_point: "46 \<notin> set w \<Longrightarrow> dropWhile (\<lambda>c. c \<noteq> 46) w = []"
  by (induction w) auto

lemma digits_value_0_decimal_digits: "digits_value 0 (decimal_digits n) = Some n"
  by (simp add: digits_value_decimal_digits)

lemma decimal_subunits_whole: "decimal_subunits (decimal_digits W) = Some (int W * 10 ^ 9)"
  by (simp add: decimal_subunits_def takeWhile_no_point dropWhile_no_point
      point_notin_decimal_digits decimal_digits_not_Nil digits_value_0_decimal_digits)

lemma decimal_subunits_point:
  assumes "f \<noteq> []" "length f \<le> 9" "digits_value 0 f = Some F"
  shows "decimal_subunits (decimal_digits W @ str ''.'' @ f) =
    Some (int W * 10 ^ 9 + int F * 10 ^ (9 - length f))"
  using assms
  by (simp add: decimal_subunits_def str_def takeWhile_point dropWhile_point
      point_notin_decimal_digits decimal_digits_not_Nil digits_value_0_decimal_digits)

text \<open>Rounding up to the grid of step \<open>u\<close>.\<close>

lemma round_up_div:
  fixes u :: int
  assumes "0 < u" "0 \<le> r" "r < u"
  shows "(m * u + r + u - 1) div u = m + (if r = 0 then 0 else 1)"
proof (cases "r = 0")
  case True
  have "(u - 1 + m * u) div u = m + (u - 1) div u"
    using assms(1) by (subst div_mult_self1) simp_all
  moreover have "(u - 1) div u = 0"
    using assms(1) by simp
  ultimately show ?thesis
    using True by (simp add: algebra_simps)
next
  case False
  have "(r - 1 + (m + 1) * u) div u = (m + 1) + (r - 1) div u"
    using assms(1) by (subst div_mult_self1) simp_all
  moreover have "(r - 1) div u = 0"
    using assms False by simp
  moreover have "m * u + r + u - 1 = r - 1 + (m + 1) * u"
    by (simp add: algebra_simps)
  ultimately have "(m * u + r + u - 1) div u = m + 1"
    by (simp only: add_0_right)
  with False show ?thesis
    by simp
qed

lemma round_up_parts:
  fixes u P w f :: int
  assumes u: "0 < u" and P: "0 < P" and w: "0 \<le> w" and f: "0 \<le> f" "f < u * P"
  defines "carries \<equiv> (0 < f mod u \<and> u * P \<le> f + u)"
  defines "num \<equiv> (if carries then f + u - u * P else if 0 < f mod u then f + u else f) div u"
  defines "whole' \<equiv> (if carries then w + 1 else w)"
  shows "0 \<le> whole'" and "0 \<le> num" and "num < P"
    and "whole' * (u * P) + num * u = (w * (u * P) + f + u - 1) div u * u"
proof -
  define q where "q = f div u"
  define r where "r = f mod u"
  have r: "0 \<le> r" "r < u"
    using u by (simp_all add: r_def)
  have q: "0 \<le> q"
    using f u by (simp add: q_def pos_imp_zdiv_nonneg_iff)
  have fqr: "f = q * u + r"
    by (simp add: q_def r_def)
  have qP: "q < P"
  proof (rule ccontr)
    assume "\<not> q < P"
    then have "P * u \<le> q * u"
      using u by (simp add: mult_right_mono)
    with fqr r f show False
      by (simp add: mult.commute)
  qed
  have "w * (u * P) + f + u - 1 = (w * P + q) * u + r + u - 1"
    using fqr by (simp add: algebra_simps)
  then have ceil: "(w * (u * P) + f + u - 1) div u = w * P + q + (if r = 0 then 0 else 1)"
    using round_up_div [OF u r, of "w * P + q"] by simp
  have num_cases: "num = (if carries then 0 else if 0 < r then q + 1 else q)"
  proof -
    have "carries \<Longrightarrow> (f + u - u * P) div u = 0"
      using f u by (simp add: carries_def)
    moreover have "(f + u) div u = q + 1"
    proof -
      from u have "u \<noteq> 0" by simp
      then show ?thesis using div_add_self2 [of u f] by (simp add: q_def)
    qed
    ultimately show ?thesis
      by (auto simp: num_def r_def q_def)
  qed
  have q_carry: "q = P - 1" if "carries"
  proof -
    from that have "u * P \<le> f + u"
      by (simp add: carries_def)
    then have "u * P \<le> q * u + r + u"
      using fqr by simp
    with r have "P * u < (q + 2) * u"
      by (simp add: algebra_simps)
    then have "P < q + 2"
      using u by (simp only: mult_less_cancel_right_pos)
    with qP show ?thesis by simp
  qed
  have q_round: "q + 1 < P" if "0 < r" "\<not> carries"
  proof -
    from that have "f + u < u * P"
      by (simp add: carries_def r_def)
    then have "q * u + r + u < u * P"
      using fqr by simp
    with r have "(q + 1) * u < P * u"
      by (simp add: algebra_simps)
    then show ?thesis
      using u by (simp only: mult_less_cancel_right_pos)
  qed
  show "0 \<le> whole'"
    using w by (simp add: whole'_def)
  show "0 \<le> num" "num < P"
    using q qP q_round P by (auto simp: num_cases)
  consider "carries" | "0 < r" "\<not> carries" | "r = 0"
    using r by (cases "r = 0") auto
  then show "whole' * (u * P) + num * u = (w * (u * P) + f + u - 1) div u * u"
  proof cases
    case 1
    then have "r \<noteq> 0" by (simp add: carries_def r_def)
    moreover from q_carry [OF 1] have "P = q + 1" by simp
    ultimately show ?thesis
      unfolding ceil using 1 by (simp add: whole'_def num_cases algebra_simps)
  next
    case 2
    then show ?thesis
      unfolding ceil by (simp add: whole'_def num_cases algebra_simps)
  next
    case 3
    then have "\<not> carries" by (simp add: carries_def r_def)
    with 3 show ?thesis
      unfolding ceil by (simp add: whole'_def num_cases algebra_simps)
  qed
qed

lemma spec_format_value:
  assumes "0 \<le> a" "0 \<le> p" "p \<le> 9"
  shows "decimal_subunits (spec_format a p) =
    Some ((a + 10 ^ nat (9 - p) - 1) div 10 ^ nat (9 - p) * 10 ^ nat (9 - p))"
proof -
  define u :: int where "u = 10 ^ nat (9 - p)"
  define P :: int where "P = 10 ^ nat p"
  have u: "0 < u" and P: "0 < P"
    by (simp_all add: u_def P_def)
  have n9: "nat (9 - p) + nat p = 9"
    using assms by simp
  then have "(10::int) ^ 9 = 10 ^ nat (9 - p) * 10 ^ nat p"
    by (simp only: power_add [symmetric])
  then have D: "(10::int) ^ 9 = u * P"
    by (simp only: u_def P_def)
  define w where "w = a div (u * P)"
  define f where "f = a mod (u * P)"
  have w: "0 \<le> w"
    using assms u P by (simp add: w_def pos_imp_zdiv_nonneg_iff)
  have f: "0 \<le> f" "f < u * P"
    using u P by (simp_all add: f_def)
  have awf: "w * (u * P) + f = a"
    by (simp only: w_def f_def div_mult_mod_eq)
  define carries where "carries = (0 < f mod u \<and> u * P \<le> f + u)"
  define num where
    "num = (if carries then f + u - u * P else if 0 < f mod u then f + u else f) div u"
  define whole' where "whole' = (if carries then w + 1 else w)"
  note parts = round_up_parts [OF u P w f, folded carries_def, folded num_def whole'_def]
  have sf: "spec_format a p = decimal_digits (nat whole') @
      (if num \<noteq> 0
       then str ''.'' @ strip_trailing_zeros (zero_pad_left (nat p) (decimal_digits (nat num)))
       else [])"
    unfolding spec_format_def Let_def D u_def [symmetric]
    by (simp only: num_def whole'_def carries_def f_def w_def)
  have total: "whole' * 10 ^ 9 + num * u = (a + u - 1) div u * u"
    using parts(4) by (simp only: awf D)
  show ?thesis
  proof (cases "num = 0")
    case True
    with total parts(1) show ?thesis
      by (simp add: sf decimal_subunits_whole u_def [symmetric])
  next
    case False
    let ?f = "strip_trailing_zeros (zero_pad_left (nat p) (decimal_digits (nat num)))"
    have "0 < nat num" "nat num < 10 ^ nat p"
      using False parts(2,3) by (simp_all add: P_def nat_less_iff)
    from fraction_digits [OF this]
    obtain F where fne: "?f \<noteq> []" and flen: "length ?f \<le> nat p"
      and fval: "digits_value 0 ?f = Some F" and F: "F * 10 ^ (nat p - length ?f) = nat num"
      by auto
    have len9: "length ?f \<le> 9"
      using flen assms by simp
    have "9 - length ?f = (nat p - length ?f) + nat (9 - p)"
      using flen n9 by linarith
    then have "int F * 10 ^ (9 - length ?f) = int (F * 10 ^ (nat p - length ?f)) * u"
      by (simp add: power_add u_def)
    also have "\<dots> = num * u"
      using F parts(2) by simp
    finally have frac: "int F * 10 ^ (9 - length ?f) = num * u" .
    have "decimal_subunits (spec_format a p) =
        Some (int (nat whole') * 10 ^ 9 + int F * 10 ^ (9 - length ?f))"
      using False by (simp add: sf decimal_subunits_point [OF fne len9 fval])
    with frac total parts(1) show ?thesis
      by (simp add: u_def [symmetric])
  qed
qed

lemma formatCoinsPure_value:
  assumes "0 \<le> a" "0 \<le> p" "p \<le> 9"
  shows "decimal_subunits (formatCoinsPure a p) =
    Some ((a + 10 ^ nat (9 - p) - 1) div 10 ^ nat (9 - p) * 10 ^ nat (9 - p))"
  using assms by (simp only: formatCoinsPure_refines spec_format_value)

lemma round_up_bounds:
  fixes u :: int
  assumes "0 < u"
  shows "a div u \<le> (a + u - 1) div u" and "(a + u - 1) div u \<le> a div u + 1"
proof -
  show "a div u \<le> (a + u - 1) div u"
    using assms by (intro zdiv_mono1) simp_all
  have "(a + u - 1) div u \<le> (a + u) div u"
    using assms by (intro zdiv_mono1) simp_all
  also have "(a + u) div u = a div u + 1"
    using assms div_add_self2 [of u a] by simp
  finally show "(a + u - 1) div u \<le> a div u + 1" .
qed

text \<open>
  Claim C2: for a non-negative amount \<open>a\<close> and a precision \<open>p\<close> from \<open>0\<close> to \<open>9\<close>, the
  string \<open>formatCoinsPure a p\<close> is a decimal numeral, and the number it denotes, in
  subunits, differs from \<open>a\<close> truncated to the grid of step \<open>10^(9 - p)\<close> by at most one
  step.
\<close>

theorem format_within_one_unit:
  assumes "0 \<le> a" "0 \<le> p" "p \<le> 9"
  shows "\<exists>v. decimal_subunits (formatCoinsPure a p) = Some v \<and>
    \<bar>v - a div 10 ^ nat (9 - p) * 10 ^ nat (9 - p)\<bar> \<le> 10 ^ nat (9 - p)"
proof -
  define u :: int where "u = 10 ^ nat (9 - p)"
  have u: "0 < u" by (simp add: u_def)
  define c where "c = (a + u - 1) div u"
  have "a div u \<le> c" "c \<le> a div u + 1"
    using round_up_bounds [OF u, of a] by (simp_all add: c_def)
  then have "0 \<le> c - a div u" "c - a div u \<le> 1"
    by simp_all
  then have "0 \<le> (c - a div u) * u" "(c - a div u) * u \<le> 1 * u"
    using u by (simp_all add: mult_right_mono del: mult_1)
  then have "\<bar>c * u - a div u * u\<bar> \<le> u"
    by (simp add: left_diff_distrib)
  moreover have "decimal_subunits (formatCoinsPure a p) = Some (c * u)"
    using assms by (simp add: formatCoinsPure_value c_def u_def)
  ultimately show ?thesis
    by (simp add: u_def)
qed

theorem format_within_one_unit_witness:
  "\<exists>v. decimal_subunits (formatCoinsPure 123456789 6) = Some v \<and>
    \<bar>v - 123456789 div 10 ^ nat (9 - 6) * 10 ^ nat (9 - 6)\<bar> \<le> 10 ^ nat (9 - 6)"
  using format_within_one_unit [of 123456789 6] by simp

text \<open>
  Claim C3: for a fixed precision \<open>p\<close> from \<open>0\<close> to \<open>9\<close> and non-negative amounts
  \<open>a \<le> b\<close>, the number that \<open>formatCoinsPure a p\<close> denotes is at most the number that
  \<open>formatCoinsPure b p\<close> denotes.
\<close>

theorem format_monotone:
  assumes "0 \<le> a" "a \<le> b" "0 \<le> p" "p \<le> 9"
  shows "\<exists>va vb. decimal_subunits (formatCoinsPure a p) = Some va \<and>
    decimal_subunits (formatCoinsPure b p) = Some vb \<and> va \<le> vb"
proof -
  define u :: int where "u = 10 ^ nat (9 - p)"
  have u: "0 < u" by (simp add: u_def)
  have "(a + u - 1) div u \<le> (b + u - 1) div u"
    using assms(2) u by (intro zdiv_mono1) simp_all
  then have "(a + u - 1) div u * u \<le> (b + u - 1) div u * u"
    using u by (simp add: mult_right_mono)
  moreover have "decimal_subunits (formatCoinsPure a p) = Some ((a + u - 1) div u * u)"
    using assms by (simp add: formatCoinsPure_value u_def)
  moreover have "decimal_subunits (formatCoinsPure b p) = Some ((b + u - 1) div u * u)"
    using assms by (simp add: formatCoinsPure_value u_def)
  ultimately show ?thesis
    by simp
qed

theorem format_monotone_witness:
  "\<exists>va vb. decimal_subunits (formatCoinsPure 999999000 6) = Some va \<and>
    decimal_subunits (formatCoinsPure 999999001 6) = Some vb \<and> va \<le> vb"
  using format_monotone [of 999999000 999999001 6] by simp

section \<open>The displayed row\<close>

lemma info_type_internal_iff:
  "info_type i = str ''internal'' \<longleftrightarrow> (\<exists>s d c. i = Internal s d c)"
  by (cases i) (simp_all add: str_def)

lemma description_type_generic_iff:
  "description_type d = str ''generic'' \<longleftrightarrow> (\<exists>c a. d = Generic c a)"
  by (cases d) (simp_all add: str_def)

lemma filter_map_internal:
  "map (\<lambda>msg. JSString (formatCoins (Defined (coins (info msg))) default_precision))
     (filter (\<lambda>msg. info_type (info msg) = str ''internal'') ms) = internal_amounts ms"
proof (induction ms)
  case Nil
  show ?case by simp
next
  case (Cons m ms)
  then show ?case
    by (cases "info m") (simp_all add: default_precision_def str_def)
qed

lemma internal_amounts_none:
  "\<forall>m \<in> set ms. info_type (info m) \<noteq> str ''internal'' \<Longrightarrow> internal_amounts ms = []"
proof (induction ms)
  case Nil
  show ?case by simp
next
  case (Cons m ms)
  then show ?case
    by (cases "info m") simp_all
qed

lemma formatTransaction_Outgoing_Value:
  assumes "formatTransaction lg tx = Some row"
  shows "Outgoing_Value row =
    (if outMessages tx = [] then JSString (str ''No coins!'')
     else JSArray (internal_amounts (outMessages tx)))"
proof -
  from assms have gen: "description_type (description tx) = str ''generic''"
    by (simp add: formatTransaction_def split: if_splits)
  with assms have "Outgoing_Value row =
      (if length (outMessages tx) = 0 then JSString (str ''No coins!'')
       else JSArray
         (map (\<lambda>msg. JSString (formatCoins (Defined (coins (info msg))) default_precision))
            (filter (\<lambda>msg. info_type (info msg) = str ''internal'') (outMessages tx))))"
    by (auto simp: formatTransaction_def Let_def)
  then show ?thesis
    by (simp add: filter_map_internal)
qed

lemma formatTransaction_generic:
  "description_type (description tx) = str ''generic'' \<Longrightarrow> \<exists>row. formatTransaction lg tx = Some row"
  by (simp add: formatTransaction_def Let_def)

text \<open>
  Claim C6: for a transaction of generic kind the summarizer returns a row. Its
  Outgoing Value is the string \<open>"No coins!"\<close> when the transaction has no outbound message;
  otherwise it is the array of the formatted amounts of exactly the outbound messages of
  internal kind, in their order. With outbound messages that are all of another kind the
  array is empty, which is not the sentinel string.
\<close>

theorem outgoing_value_sentinel_or_list:
  assumes "description_type (description tx) = str ''generic''"
  shows "\<exists>row. formatTransaction lg tx = Some row \<and>
    (outMessages tx = [] \<longrightarrow> Outgoing_Value row = JSString (str ''No coins!'')) \<and>
    (outMessages tx \<noteq> [] \<longrightarrow> Outgoing_Value row = JSArray (internal_amounts (outMessages tx))) \<and>
    (outMessages tx \<noteq> [] \<and> (\<forall>m \<in> set (outMessages tx). info_type (info m) \<noteq> str ''internal'') \<longrightarrow>
       Outgoing_Value row = JSArray [] \<and> Outgoing_Value row \<noteq> JSString (str ''No coins!''))"
proof -
  from formatTransaction_generic [OF assms]
  obtain row where row: "formatTransaction lg tx = Some row" ..
  then show ?thesis
    by (auto simp: formatTransaction_Outgoing_Value internal_amounts_none)
qed

lemma formatCoins_one_and_a_half: "formatCoins (Defined 1500000000) 6 = str ''1.5''"
  by (simp add: formatCoins_def formatCoinsPure_def decimal_eq decimalCount_def pow10_eq
      signed_divide_int_def signed_modulo_int_def bigint_toString_def
      padStart_def replace_trailing_zeros_def
      decimal_digits.simps decimal_digit_def str_def)

lemma formatCoins_zero: "formatCoins (Defined 0) 6 = str ''0''"
  by (simp add: formatCoins_def formatCoinsPure_def decimal_eq decimalCount_def pow10_eq
      bigint_toString_def decimal_digits.simps decimal_digit_def str_def)

theorem outgoing_value_sentinel_or_list_witness:
  "(\<exists>row. formatTransaction example_logger example_tx_bare = Some row \<and>
      Outgoing_Value row = JSString (str ''No coins!'')) \<and>
   (\<exists>row. formatTransaction example_logger example_tx_external = Some row \<and>
      Outgoing_Value row = JSArray []) \<and>
   (\<exists>row. formatTransaction example_logger example_tx_mixed = Some row \<and>
      Outgoing_Value row = JSArray [JSString (str ''1.5'')])"
proof -
  have "description_type (description example_tx_bare) = str ''generic''"
    and "description_type (description example_tx_external) = str ''generic''"
    and "description_type (description example_tx_mixed) = str ''generic''"
    by (simp_all add: example_tx_bare_def example_tx_external_def example_tx_mixed_def)
  note w = this [THEN outgoing_value_sentinel_or_list, of example_logger]
  have "outMessages example_tx_bare = []"
    by (simp add: example_tx_bare_def)
  moreover have "outMessages example_tx_external = [example_external_out]"
    by (simp add: example_tx_external_def)
  moreover have "outMessages example_tx_mixed = [example_external_out, example_internal_out]"
    by (simp add: example_tx_mixed_def)
  moreover have "info example_external_out = ExternalOut example_address Undefined"
    by (simp add: example_external_out_def)
  moreover have "info example_internal_out = Internal example_address example_address 1500000000"
    by (simp add: example_internal_out_def)
  ultimately show ?thesis
    using w by (auto simp: formatCoins_one_and_a_half)
qed

section \<open>Transactions that are not generic\<close>

lemma formatTransaction_None_iff:
  "formatTransaction lg tx = None \<longleftrightarrow> description_type (description tx) \<noteq> str ''generic''"
  by (simp add: formatTransaction_def Let_def)

lemma rows_of_generic:
  "map Some (map the (filter (\<lambda>r. r \<noteq> None) (map (formatTransaction lg) txs))) =
   map (formatTransaction lg)
     (filter (\<lambda>t. description_type (description t) = str ''generic'') txs)"
proof (induction txs)
  case Nil
  show ?case by simp
next
  case (Cons t txs)
  show ?case
  proof (cases "description_type (description t) = str ''generic''")
    case True
    then obtain row where "formatTransaction lg t = Some row"
      using formatTransaction_generic by blast
    with True Cons show ?thesis by simp
  next
    case False
    then have "formatTransaction lg t = None"
      by (simp add: formatTransaction_None_iff)
    with False Cons show ?thesis by simp
  qed
qed

text \<open>
  Claim C7: for a transaction whose description is not of generic kind
  \<open>formatTransaction\<close> returns \<open>undefined\<close>; and \<open>logTransactions\<close> prints one table, after
  at most the info line, whose rows are the results of \<open>formatTransaction\<close> on exactly
  the transactions of generic kind, in their order.
\<close>

theorem non_generic_excluded:
  "(description_type (description tx) \<noteq> str ''generic'' \<longrightarrow> formatTransaction lg tx = None) \<and>
   (\<exists>pre rows. logTransactions lg txs info_line = pre @ [ConsoleTable rows] \<and>
      (pre = [] \<or> (\<exists>s. pre = [ConsoleInfo s])) \<and>
      map Some rows = map (formatTransaction lg)
        (filter (\<lambda>t. description_type (description t) = str ''generic'') txs))"
proof
  show "description_type (description tx) \<noteq> str ''generic'' \<longrightarrow> formatTransaction lg tx = None"
    by (simp add: formatTransaction_None_iff)
  let ?rows = "map the (filter (\<lambda>r. r \<noteq> None) (map (formatTransaction lg) txs))"
  let ?pre = "case info_line of Defined s \<Rightarrow> if s \<noteq> [] then [ConsoleInfo s] else [] | _ \<Rightarrow> []"
  have "logTransactions lg txs info_line = ?pre @ [ConsoleTable ?rows]"
    by (simp add: logTransactions_def)
  moreover have "?pre = [] \<or> (\<exists>s. ?pre = [ConsoleInfo s])"
    by (cases info_line) auto
  ultimately show "\<exists>pre rows. logTransactions lg txs info_line = pre @ [ConsoleTable rows] \<and>
      (pre = [] \<or> (\<exists>s. pre = [ConsoleInfo s])) \<and>
      map Some rows = map (formatTransaction lg)
        (filter (\<lambda>t. description_type (description t) = str ''generic'') txs)"
    using rows_of_generic [of lg txs] by blast
qed

theorem non_generic_excluded_witness:
  "formatTransaction example_logger example_tx_storage = None \<and>
   (\<exists>pre rows.
      logTransactions example_logger [example_tx_bare, example_tx_storage, example_tx_mixed]
        Undefined = pre @ [ConsoleTable rows] \<and>
      (pre = [] \<or> (\<exists>s. pre = [ConsoleInfo s])) \<and>
      map Some rows = map (formatTransaction example_logger) [example_tx_bare, example_tx_mixed])"
proof -
  have "description_type (description example_tx_bare) = str ''generic''"
    and "description_type (description example_tx_mixed) = str ''generic''"
    and "description_type (description example_tx_storage) \<noteq> str ''generic''"
    by (simp_all add: example_tx_bare_def example_tx_storage_def example_tx_mixed_def str_def)
  then show ?thesis
    using non_generic_excluded [of example_tx_storage example_logger
        "[example_tx_bare, example_tx_storage, example_tx_mixed]" Undefined]
    by simp
qed

section \<open>The label registry\<close>

text \<open>
  Claim C8: when the address key already has a label, \<open>addContract\<close> for that key throws
  the error that names the duplicate, and the logger is as before the call: the key
  still has its first label.
\<close>

theorem addContract_duplicate:
  assumes "contractLabels lg (getAddressString c) = Some l"
  shows "addContract lg c l' =
      (Inl (Error (str ''The '' @ [39] @ getAddressString c @ [39] @
         str '' contract already has a '' @ [39] @ l' @ [39] @ str '' label!'')), lg) \<and>
    contractLabels (snd (addContract lg c l')) (getAddressString c) = Some l"
  using assms by (simp add: addContract_def Let_def)

theorem addContract_duplicate_witness:
  "\<exists>lg1 e. addContract example_logger (OfAddress example_address) (str ''Counter'') = (Inr (), lg1) \<and>
     addContract lg1 (OfString (toString example_address)) (str ''Deployer'') = (Inl e, lg1) \<and>
     contractLabels lg1 (toString example_address) = Some (str ''Counter'')"
proof -
  define lg1 where "lg1 = example_logger
    \<lparr>contractLabels := (contractLabels example_logger)(toString example_address \<mapsto> str ''Counter'')\<rparr>"
  have first: "addContract example_logger (OfAddress example_address) (str ''Counter'') = (Inr (), lg1)"
    by (simp add: addContract_def Let_def lg1_def example_logger_def)
  have has: "contractLabels lg1 (getAddressString (OfString (toString example_address))) =
      Some (str ''Counter'')"
    by (simp add: lg1_def)
  from addContract_duplicate [OF has, of "str ''Deployer''"] first has show ?thesis
    by auto
qed

section \<open>Label resolution\<close>

lemma drop_last_four: "drop (length s - 4) s = rev (take 4 (rev s))"
  by (simp add: take_rev)

text \<open>
  Claim C10: \<open>getContractLabel\<close> returns the registered label only when it is not the
  empty string. For an address without a label, or with the empty label, it returns the
  shortened address string: the string itself when it has at most \<open>8\<close> code units, and
  otherwise its first four code units, three full stops and its last four code units.
\<close>

theorem getContractLabel_resolution:
  "(contractLabels lg (toString a) = Some l \<and> l \<noteq> [] \<longrightarrow> getContractLabel lg a = l) \<and>
   (contractLabels lg (toString a) = Some [] \<or> contractLabels lg (toString a) = None \<longrightarrow>
      getContractLabel lg a = shortenString (toString a)) \<and>
   (length s \<le> 8 \<longrightarrow> shortenString s = s) \<and>
   (8 < length s \<longrightarrow>
      shortenString s = take 4 s @ str ''...'' @ rev (take 4 (rev s)) \<and>
      length (shortenString s) = 11)"
  by (auto simp: getContractLabel_def shortenString_def drop_last_four str_def)

theorem getContractLabel_resolution_witness:
  "getContractLabel
     (example_logger\<lparr>contractLabels := [toString example_address \<mapsto> str ''Counter'']\<rparr>)
     example_address = str ''Counter'' \<and>
   getContractLabel
     (example_logger\<lparr>contractLabels := [toString example_address \<mapsto> []]\<rparr>)
     example_address = str ''EQBG...1x8G'' \<and>
   getContractLabel example_logger example_address = str ''EQBG...1x8G'' \<and>
   shortenString (str ''EQBG1x8G'') = str ''EQBG1x8G''"
proof -
  have short: "shortenString (toString example_address) = str ''EQBG...1x8G''"
    by (simp add: shortenString_def example_address_def str_def)
  have len: "length (str ''EQBG1x8G'') \<le> 8"
    by (simp add: str_def)
  show ?thesis
    using getContractLabel_resolution
        [of "example_logger\<lparr>contractLabels := [toString example_address \<mapsto> str ''Counter'']\<rparr>"
          example_address "str ''Counter''" "str ''EQBG1x8G''"]
      getContractLabel_resolution
        [of "example_logger\<lparr>contractLabels := [toString example_address \<mapsto> []]\<rparr>"
          example_address "[]" "[]"]
      getContractLabel_resolution [of example_logger example_address "[]" "[]"]
      short len
    by (simp add: example_logger_def str_def)
qed

section \<open>The Type field without an inbound message\<close>

lemma formatCoinsPure_zero: "formatCoinsPure 0 6 = str ''0''"
  using formatCoins_zero by (simp add: formatCoins_def)

lemma formatTransaction_Some_generic:
  "formatTransaction lg tx = Some row \<Longrightarrow> description_type (description tx) = str ''generic''"
  by (simp add: formatTransaction_def split: if_splits)

lemma formatTransaction_Type:
  assumes "formatTransaction lg tx = Some row"
  shows "Type row =
    (case inMessage tx of
       Defined m \<Rightarrow> JSString (info_type (info m))
     | Null \<Rightarrow> JSUndefined
     | Undefined \<Rightarrow> JSUndefined)"
proof -
  from assms have gen: "description_type (description tx) = str ''generic''"
    by (rule formatTransaction_Some_generic)
  with assms have
    "Type row = js_of_maybe_string
       (optional_chain (inMessage tx) (\<lambda>m. Defined (info_type (info m))))"
    by (auto simp: formatTransaction_def Let_def)
  then show ?thesis
    by (cases "inMessage tx") simp_all
qed

lemma formatTransaction_labels:
  assumes "formatTransaction lg tx = Some row"
  shows "\<exists>s d. Source row = JSString s \<and> Destination row = JSString d"
proof -
  from assms have gen: "description_type (description tx) = str ''generic''"
    by (rule formatTransaction_Some_generic)
  with assms show ?thesis
    by (auto simp: formatTransaction_def Let_def)
qed

lemma formatTransaction_amounts:
  assumes "formatTransaction lg tx = Some row"
  shows "\<exists>i f. Incoming_Value row = JSString i \<and> Total_Fees row = JSString f"
proof -
  from assms have gen: "description_type (description tx) = str ''generic''"
    by (rule formatTransaction_Some_generic)
  with assms show ?thesis
    by (auto simp: formatTransaction_def Let_def)
qed

text \<open>
  Claim C9: every field of the row has a defined value, a sentinel standing in for a
  value that the transaction does not have, and the Type field is the kind of the
  inbound message, or a marker other than \<open>undefined\<close> when there is no inbound message.
  The row of the generic transaction without any message: eight fields hold their
  sentinel or a formatted amount, and the Type field is \<open>undefined\<close>.
\<close>

theorem formatTransaction_no_inbound_message:
  "formatTransaction lg example_tx_bare = Some
     \<lparr>Source = JSString (str ''Shrek''),
      Destination = JSString (str ''Donkey''),
      Type = JSUndefined,
      Opcode = JSString (str ''0gR33n0gr''),
      Incoming_Value = JSString [0x221E],
      Outgoing_Value = JSString (str ''No coins!''),
      Total_Fees = JSString (str ''0''),
      Outgoing_Actions_Count = JSString (str ''No actions here?''),
      Exit_Code = JSString (str ''Ogres have layers?'')\<rparr>"
  by (simp add: formatTransaction_def example_tx_bare_def Let_def formatCoinsPure_zero
      default_precision_def formatCoins_def infinity_sign_def str_def)

end
